theory Spec2Isabelle
  imports Main
begin

section \<open>Python strings\<close>

text \<open>
  A Python \<open>str\<close> is a sequence of Unicode code points, and \<open>len\<close> counts code points
  (the unit tests of the source feed Cyrillic text to the filter). A string is therefore
  modelled as the list of its code points; \<open>str\<close> turns an ASCII literal into one.
  Every Python string is such a list (with code points below \<open>0x110000\<close>), so what is
  proved for all lists holds for all Python strings.
\<close>

type_synonym codepoint = nat
type_synonym pystr = "codepoint list"

definition str :: "string \<Rightarrow> pystr" where
  "str cs = map of_char cs"

text \<open>
  The whitespace of CPython (\<open>Py_UNICODE_ISSPACE\<close>): the characters \<open>str.isspace\<close>
  accepts. \<open>str.strip()\<close> without argument and the class \<open>\s\<close> of a \<open>str\<close> pattern
  both use this one predicate.
\<close>

definition isspace :: "codepoint \<Rightarrow> bool" where
  "isspace c =
     ((9 \<le> c \<and> c \<le> 13) \<or> (28 \<le> c \<and> c \<le> 32) \<or> c = 133 \<or> c = 160 \<or> c = 5760
      \<or> (8192 \<le> c \<and> c \<le> 8202) \<or> c = 8232 \<or> c = 8233 \<or> c = 8239 \<or> c = 8287
      \<or> c = 12288)"

text \<open>\<open>data.strip()\<close>: the leading and the trailing run of whitespace are dropped.\<close>

definition strip :: "pystr \<Rightarrow> pystr" where
  "strip data = rev (dropWhile isspace (rev (dropWhile isspace data)))"

section \<open>Regular expressions\<close>

text \<open>
  The fragment of \<open>re\<close> that \<open>VALID_PATTERN\<close> is written in: the anchors \<open>^\<close> and \<open>$\<close>
  and a character class under \<open>+\<close>. A class is the list of its members as they stand
  between the brackets: a range, an escaped or plain literal, or the category \<open>\s\<close>.
\<close>

datatype class_item = Range codepoint codepoint | Literal codepoint | Category_Space

type_synonym char_class = "class_item list"

datatype re_node = At_Beginning | At_End | In_Plus char_class

type_synonym pattern = "re_node list"

fun in_item :: "class_item \<Rightarrow> codepoint \<Rightarrow> bool" where
  "in_item (Range lo hi) c = (lo \<le> c \<and> c \<le> hi)"
| "in_item (Literal x) c = (c = x)"
| "in_item Category_Space c = isspace c"

definition in_class :: "char_class \<Rightarrow> codepoint \<Rightarrow> bool" where
  "in_class cls c = list_ex (\<lambda>it. in_item it c) cls"

text \<open>
  Without \<open>re.MULTILINE\<close>, \<open>^\<close> matches at position 0 only, and \<open>$\<close> matches at the end
  of the string and also just before a newline that is the last character.
\<close>

definition at_beginning :: "pystr \<Rightarrow> nat \<Rightarrow> bool" where
  "at_beginning s i = (i = 0)"

definition at_end :: "pystr \<Rightarrow> nat \<Rightarrow> bool" where
  "at_end s i = (i = length s \<or> (Suc i = length s \<and> s ! i = 10))"

text \<open>
  \<open>match_node n s i\<close> lists the positions at which a match of \<open>n\<close> that starts at
  position \<open>i\<close> of \<open>s\<close> can end, in the order the backtracking matcher tries them: the
  anchors consume nothing, and \<open>[...]+\<close> is greedy, so it tries the longest run of
  class members first and gives characters back one at a time, keeping at least one.
\<close>

fun match_node :: "re_node \<Rightarrow> pystr \<Rightarrow> nat \<Rightarrow> nat list" where
  "match_node At_Beginning s i = (if at_beginning s i then [i] else [])"
| "match_node At_End s i = (if at_end s i then [i] else [])"
| "match_node (In_Plus cls) s i =
     map (\<lambda>k. i + k) (rev [1 ..< Suc (length (takeWhile (in_class cls) (drop i s)))])"

fun match_seq :: "pattern \<Rightarrow> pystr \<Rightarrow> nat \<Rightarrow> nat list" where
  "match_seq [] s i = [i]"
| "match_seq (n # ns) s i = concat (map (match_seq ns s) (match_node n s i))"

text \<open>\<open>re.fullmatch(p, s)\<close>: some match that starts at 0 ends at \<open>len(s)\<close>.\<close>

definition fullmatch :: "pattern \<Rightarrow> pystr \<Rightarrow> bool" where
  "fullmatch p s = (length s \<in> set (match_seq p s 0))"

section \<open>Configuration\<close>

definition MAX_INPUT_LENGTH :: nat where
  "MAX_INPUT_LENGTH = 25"

text \<open>The class \<open>[A-Za-z0-9\s\-_]\<close> and the pattern \<open>^[A-Za-z0-9\s\-_]+$\<close>.\<close>

definition ALLOWED :: char_class where
  "ALLOWED =
     [Range (of_char CHR ''A'') (of_char CHR ''Z''),
      Range (of_char CHR ''a'') (of_char CHR ''z''),
      Range (of_char CHR ''0'') (of_char CHR ''9''),
      Category_Space,
      Literal (of_char CHR ''-''),
      Literal (of_char CHR ''_'')]"

definition VALID_PATTERN :: pattern where
  "VALID_PATTERN = [At_Beginning, In_Plus ALLOWED, At_End]"

section \<open>Filter and Validator\<close>

text \<open>
  Both modules raise \<open>ValueError\<close>; the two raise sites differ in their message, which
  for the filter carries the limit.
\<close>

datatype value_error = Length_Exceeded nat | Invalid_Characters

definition filter_input :: "pystr \<Rightarrow> value_error + pystr" where
  "filter_input data =
     (if length data > MAX_INPUT_LENGTH then Inl (Length_Exceeded MAX_INPUT_LENGTH)
      else Inr (strip data))"

definition validate_input :: "pystr \<Rightarrow> value_error + pystr" where
  "validate_input data =
     (if \<not> fullmatch VALID_PATTERN data then Inl Invalid_Characters
      else Inr data)"

section \<open>Request processing\<close>

text \<open>
  \<open>process_request\<close> writes to the log and returns a string. The log is the list of
  records written so far; a record is its level and what it reports. Writing a record
  does not raise: the \<open>logging\<close> module handles its own errors.
\<close>

datatype level = INFO | ERROR

datatype message = Filter_Ok pystr | Validation_Ok | Request_Error value_error

type_synonym log = "(level \<times> message) list"

text \<open>
  The body of the \<open>try\<close>: it either returns \<open>validated_data\<close> or leaves with the
  \<open>ValueError\<close> of the stage that raised, having logged what it did until then.
\<close>

definition try_body :: "pystr \<Rightarrow> log \<Rightarrow> (value_error + pystr) \<times> log" where
  "try_body user_input lg =
     (case filter_input user_input of
        Inl error \<Rightarrow> (Inl error, lg)
      | Inr filtered_data \<Rightarrow>
          (let lg1 = lg @ [(INFO, Filter_Ok filtered_data)] in
           case validate_input filtered_data of
             Inl error \<Rightarrow> (Inl error, lg1)
           | Inr validated_data \<Rightarrow> (Inr validated_data, lg1 @ [(INFO, Validation_Ok)])))"

text \<open>The whole function: the \<open>except\<close> clause logs the error and returns \<open>""\<close>.\<close>

definition process_request_log :: "pystr \<Rightarrow> log \<Rightarrow> pystr \<times> log" where
  "process_request_log user_input lg =
     (case try_body user_input lg of
        (Inr validated_data, lg') \<Rightarrow> (validated_data, lg')
      | (Inl error, lg') \<Rightarrow> ([], lg' @ [(ERROR, Request_Error error)]))"

definition process_request :: "pystr \<Rightarrow> pystr" where
  "process_request user_input = fst (process_request_log user_input [])"

text \<open>
  A request is accepted when \<open>process_request\<close> returns through \<open>return validated_data\<close>,
  and rejected when it returns through the \<open>except\<close> clause.
\<close>

definition accepted :: "pystr \<Rightarrow> bool" where
  "accepted user_input =
     (case fst (try_body user_input []) of Inr _ \<Rightarrow> True | Inl _ \<Rightarrow> False)"

section \<open>What the pattern accepts\<close>

lemma length_takeWhile_all: "length (takeWhile P xs) = length xs \<longleftrightarrow> list_all P xs"
  by (induction xs) auto

lemma match_seq_VALID_PATTERN:
  "set (match_seq VALID_PATTERN s 0) =
     {k. 1 \<le> k \<and> k \<le> length (takeWhile (in_class ALLOWED) s) \<and> at_end s k}"
  by (auto simp: VALID_PATTERN_def at_beginning_def)

lemma fullmatch_VALID_PATTERN:
  "fullmatch VALID_PATTERN s \<longleftrightarrow> s \<noteq> [] \<and> list_all (in_class ALLOWED) s"
proof -
  have le: "length (takeWhile (in_class ALLOWED) s) \<le> length s"
    by (rule length_takeWhile_le)
  have "fullmatch VALID_PATTERN s \<longleftrightarrow>
          1 \<le> length s \<and> length s \<le> length (takeWhile (in_class ALLOWED) s)"
    unfolding fullmatch_def match_seq_VALID_PATTERN by (simp add: at_end_def)
  also have "\<dots> \<longleftrightarrow> s \<noteq> [] \<and> length (takeWhile (in_class ALLOWED) s) = length s"
    using le by (cases s) auto
  also have "\<dots> \<longleftrightarrow> s \<noteq> [] \<and> list_all (in_class ALLOWED) s"
    by (simp add: length_takeWhile_all)
  finally show ?thesis .
qed

lemma in_class_ALLOWED:
  "in_class ALLOWED c \<longleftrightarrow>
     (65 \<le> c \<and> c \<le> 90) \<or> (97 \<le> c \<and> c \<le> 122) \<or> (48 \<le> c \<and> c \<le> 57) \<or> isspace c
     \<or> c = 45 \<or> c = 95"
  by (simp add: in_class_def ALLOWED_def)

section \<open>Properties of strip\<close>

lemma strip_decompose:
  "data = takeWhile isspace data @ strip data @ rev (takeWhile isspace (rev (dropWhile isspace data)))"
proof -
  let ?d = "dropWhile isspace data"
  have "rev ?d = takeWhile isspace (rev ?d) @ dropWhile isspace (rev ?d)"
    by simp
  then have "?d = rev (dropWhile isspace (rev ?d)) @ rev (takeWhile isspace (rev ?d))"
    by (metis rev_append rev_rev_ident)
  then have "?d = strip data @ rev (takeWhile isspace (rev ?d))"
    by (simp add: strip_def)
  moreover have "data = takeWhile isspace data @ ?d"
    by simp
  ultimately show ?thesis by metis
qed

lemma strip_no_leading:
  assumes "strip data \<noteq> []"
  shows "\<not> isspace (hd (strip data))"
proof -
  let ?d = "dropWhile isspace data"
  obtain suf where d: "?d = strip data @ suf"
    using strip_decompose [of data] by (metis takeWhile_dropWhile_id same_append_eq)
  with assms have "hd ?d = hd (strip data)" and "?d \<noteq> []"
    by simp_all
  then show ?thesis
    using hd_dropWhile [of isspace data] by simp
qed

lemma strip_no_trailing: "strip data \<noteq> [] \<Longrightarrow> \<not> isspace (last (strip data))"
  unfolding strip_def by (simp add: last_rev hd_dropWhile)

lemma length_strip_le: "length (strip data) \<le> length data"
  unfolding strip_def
  by (metis length_rev length_dropWhile_le le_trans)

lemma set_strip_subset: "set (strip data) \<subseteq> set data"
  unfolding strip_def
  by (metis set_rev set_dropWhileD subsetI)

lemma strip_idem: "strip (strip data) = strip data"
proof -
  have "dropWhile isspace (strip data) = strip data"
    using strip_no_leading [of data] by (auto simp: dropWhile_eq_self_iff)
  then have "strip (strip data) = rev (dropWhile isspace (rev (strip data)))"
    by (simp add: strip_def)
  also have "\<dots> = strip data"
    by (simp add: strip_def)
  finally show ?thesis .
qed


lemma strip_eq_Nil_iff: "strip data = [] \<longleftrightarrow> list_all isspace data"
proof
  assume "strip data = []"
  then have all: "\<forall>x\<in>set (dropWhile isspace data). isspace x"
    by (simp add: strip_def dropWhile_eq_Nil_conv)
  have "dropWhile isspace data = []"
  proof (rule ccontr)
    assume ne: "dropWhile isspace data \<noteq> []"
    then have "\<not> isspace (hd (dropWhile isspace data))"
      by (rule hd_dropWhile)
    moreover have "hd (dropWhile isspace data) \<in> set (dropWhile isspace data)"
      using ne by simp
    ultimately show False
      using all by blast
  qed
  then show "list_all isspace data"
    by (simp add: dropWhile_eq_Nil_conv list_all_iff)
next
  assume "list_all isspace data"
  then have "dropWhile isspace data = []"
    by (simp add: dropWhile_eq_Nil_conv list_all_iff)
  then show "strip data = []"
    by (simp add: strip_def del: dropWhile_eq_Nil_conv)
qed

section \<open>The pipeline in closed form\<close>

lemma try_body_result:
  "fst (try_body s lg) =
     (if MAX_INPUT_LENGTH < length s then Inl (Length_Exceeded MAX_INPUT_LENGTH)
      else if fullmatch VALID_PATTERN (strip s) then Inr (strip s)
      else Inl Invalid_Characters)"
  by (simp add: try_body_def filter_input_def validate_input_def Let_def)

lemma process_request_eq:
  "process_request s =
     (if length s \<le> MAX_INPUT_LENGTH \<and> fullmatch VALID_PATTERN (strip s) then strip s else [])"
  by (simp add: process_request_def process_request_log_def try_body_def filter_input_def
      validate_input_def Let_def)

lemma accepted_iff:
  "accepted s \<longleftrightarrow> length s \<le> MAX_INPUT_LENGTH \<and> fullmatch VALID_PATTERN (strip s)"
  by (simp add: accepted_def try_body_result)

lemma accepted_iff_output: "accepted s \<longleftrightarrow> process_request s \<noteq> []"
  by (auto simp: accepted_iff process_request_eq fullmatch_VALID_PATTERN)

lemma rejected_log:
  "\<not> accepted s \<Longrightarrow>
     \<exists>lg e. process_request_log s [] = ([], lg @ [(ERROR, Request_Error e)])"
  by (auto simp: accepted_def process_request_log_def split: sum.splits prod.splits)

lemma accepted_log:
  "accepted s \<Longrightarrow>
     process_request_log s [] =
       (strip s, [(INFO, Filter_Ok (strip s)), (INFO, Validation_Ok)])"
  by (simp add: accepted_iff process_request_log_def try_body_def filter_input_def
      validate_input_def Let_def)

text \<open>The equations by which the pipeline is run on a concrete input.\<close>

lemmas eval_simps = str_def strip_def isspace_def fullmatch_VALID_PATTERN in_class_ALLOWED
  process_request_eq accepted_iff MAX_INPUT_LENGTH_def

section \<open>The claims\<close>

text \<open>
  C1, as amended. When the input itself has at most \<open>MAX_INPUT_LENGTH\<close> characters
  (the length is taken before trimming) and its trimmed form fully matches the
  allow-list pattern, \<open>process_request\<close> returns the trimmed form.
\<close>

theorem C1_process_request_returns_trimmed:
  assumes "length s \<le> MAX_INPUT_LENGTH" and "fullmatch VALID_PATTERN (strip s)"
  shows "process_request s = strip s"
  using assms by (simp add: process_request_eq)

theorem C1_process_request_returns_trimmed_witness:
  "length (str ''   Hello World   '') \<le> MAX_INPUT_LENGTH
   \<and> fullmatch VALID_PATTERN (strip (str ''   Hello World   ''))
   \<and> process_request (str ''   Hello World   '') = str ''Hello World''"
proof -
  have len: "length (str ''   Hello World   '') \<le> MAX_INPUT_LENGTH"
    by (simp add: str_def MAX_INPUT_LENGTH_def)
  have st: "strip (str ''   Hello World   '') = str ''Hello World''"
    by (simp add: eval_simps)
  have fm: "fullmatch VALID_PATTERN (strip (str ''   Hello World   ''))"
    by (simp add: eval_simps)
  from C1_process_request_returns_trimmed [OF len fm] len fm st show ?thesis
    by simp
qed

text \<open>
  C1 as the specification words it bounds the length of the trimmed form only. The
  string made of \<open>a\<close> and 25 spaces has 26 characters; its trimmed form \<open>a\<close> has one
  character and matches the pattern, yet the request is rejected, because the filter
  measures the input before it trims.
\<close>

theorem C1_trimmed_length_counterexample:
  "length (str ''a                         '') = 26
   \<and> length (strip (str ''a                         '')) \<le> MAX_INPUT_LENGTH
   \<and> fullmatch VALID_PATTERN (strip (str ''a                         ''))
   \<and> process_request (str ''a                         '') = []
   \<and> process_request (str ''a                         '') \<noteq> strip (str ''a                         '')"
  by (simp add: eval_simps)

text \<open>
  C2. Every input longer than \<open>MAX_INPUT_LENGTH\<close> = 25 characters makes
  \<open>process_request\<close> return the empty string.
\<close>

theorem C2_too_long_is_rejected:
  assumes "length s > 25"
  shows "process_request s = []"
  using assms by (simp add: process_request_eq MAX_INPUT_LENGTH_def)

theorem C2_too_long_is_rejected_witness:
  "length (replicate 26 (of_char CHR ''A'') :: pystr) > 25
   \<and> process_request (replicate 26 (of_char CHR ''A'')) = []"
proof -
  have len: "length (replicate 26 (of_char CHR ''A'') :: pystr) > 25"
    by simp
  from C2_too_long_is_rejected [OF len] len show ?thesis
    by simp
qed

text \<open>
  C3. \<open>validate_input\<close> raises exactly when its argument fails the full match of
  \<open>VALID_PATTERN\<close>, that is when the argument is empty or has a character that is no
  letter \<open>A-Z\<close>, \<open>a-z\<close>, digit, whitespace, hyphen or underscore; when it does not raise
  it returns its argument unchanged.
\<close>

theorem C3_validate_input_raises_iff_no_fullmatch:
  "(isl (validate_input s) \<longleftrightarrow> \<not> fullmatch VALID_PATTERN s)
   \<and> (\<not> isl (validate_input s) \<longrightarrow> validate_input s = Inr s)
   \<and> (fullmatch VALID_PATTERN s \<longleftrightarrow>
        s \<noteq> [] \<and>
        (\<forall>c \<in> set s. (65 \<le> c \<and> c \<le> 90) \<or> (97 \<le> c \<and> c \<le> 122) \<or> (48 \<le> c \<and> c \<le> 57)
                      \<or> isspace c \<or> c = 45 \<or> c = 95))"
  by (simp add: validate_input_def fullmatch_VALID_PATTERN list_all_iff in_class_ALLOWED)

theorem C3_validate_input_raises_iff_no_fullmatch_witness:
  "validate_input (str ''Valid_Input 123'') = Inr (str ''Valid_Input 123'')
   \<and> fullmatch VALID_PATTERN (str ''Valid_Input 123'')
   \<and> isl (validate_input (str ''Invalid@Input#!''))
   \<and> \<not> fullmatch VALID_PATTERN (str ''Invalid@Input#!'')"
proof -
  have ok: "fullmatch VALID_PATTERN (str ''Valid_Input 123'')"
    by (simp add: eval_simps)
  have bad: "\<not> fullmatch VALID_PATTERN (str ''Invalid@Input#!'')"
    by (simp add: eval_simps)
  from C3_validate_input_raises_iff_no_fullmatch [of "str ''Valid_Input 123''"]
    C3_validate_input_raises_iff_no_fullmatch [of "str ''Invalid@Input#!''"] ok bad
  show ?thesis
    by blast
qed

text \<open>
  C4. \<open>filter_input\<close> raises exactly when the input, before trimming, has more than 25
  characters, and the error carries the limit; an input of exactly 25 characters is not
  rejected.
\<close>

theorem C4_filter_input_raises_iff_too_long:
  "(isl (filter_input s) \<longleftrightarrow> length s > 25)
   \<and> (isl (filter_input s) \<longrightarrow> filter_input s = Inl (Length_Exceeded 25))
   \<and> (length s = 25 \<longrightarrow> \<not> isl (filter_input s))"
  by (simp add: filter_input_def MAX_INPUT_LENGTH_def)

theorem C4_filter_input_raises_iff_too_long_witness:
  "length (replicate 25 (of_char CHR ''A'') :: pystr) = 25
   \<and> \<not> isl (filter_input (replicate 25 (of_char CHR ''A'')))
   \<and> length (replicate 26 (of_char CHR ''A'') :: pystr) > 25
   \<and> filter_input (replicate 26 (of_char CHR ''A'')) = Inl (Length_Exceeded 25)"
  using C4_filter_input_raises_iff_too_long [of "replicate 25 (of_char CHR ''A'')"]
    C4_filter_input_raises_iff_too_long [of "replicate 26 (of_char CHR ''A'')"]
  by simp

text \<open>
  C5. When the trimmed input has a character outside the allow-list, \<open>process_request\<close>
  returns the empty string.
\<close>

theorem C5_disallowed_character_is_rejected:
  assumes "\<exists>c \<in> set (strip s). \<not> in_class ALLOWED c"
  shows "process_request s = []"
  using assms by (auto simp: process_request_eq fullmatch_VALID_PATTERN list_all_iff)

theorem C5_disallowed_character_is_rejected_witness:
  "of_char CHR ''@'' \<in> set (strip (str ''Invalid@Input#!''))
   \<and> \<not> in_class ALLOWED (of_char CHR ''@'')
   \<and> process_request (str ''Invalid@Input#!'') = []"
proof -
  have mem: "of_char CHR ''@'' \<in> set (strip (str ''Invalid@Input#!''))"
    by (simp add: eval_simps)
  have out: "\<not> in_class ALLOWED (of_char CHR ''@'')"
    by (simp add: eval_simps)
  from mem out have "\<exists>c \<in> set (strip (str ''Invalid@Input#!'')). \<not> in_class ALLOWED c"
    by blast
  from C5_disallowed_character_is_rejected [OF this] mem out show ?thesis
    by simp
qed

text \<open>
  C6. \<open>process_request\<close> is idempotent on accepted inputs: the output of an accepted
  request is itself accepted, and processing it again returns it unchanged.
\<close>

theorem C6_process_request_idempotent:
  assumes "accepted s"
  shows "process_request (process_request s) = process_request s
         \<and> accepted (process_request s)"
proof -
  from assms have len: "length s \<le> MAX_INPUT_LENGTH"
    and fm: "fullmatch VALID_PATTERN (strip s)"
    by (simp_all add: accepted_iff)
  have out: "process_request s = strip s"
    using len fm by (simp add: process_request_eq)
  have "length (strip s) \<le> MAX_INPUT_LENGTH"
    using length_strip_le [of s] len by simp
  then have acc: "accepted (strip s)"
    using fm by (simp add: accepted_iff strip_idem)
  then have "process_request (strip s) = strip s"
    by (simp add: accepted_iff process_request_eq strip_idem)
  with acc out show ?thesis
    by simp
qed

theorem C6_process_request_idempotent_witness:
  "accepted (str ''   Hello World   '')
   \<and> process_request (process_request (str ''   Hello World   ''))
       = process_request (str ''   Hello World   '')
   \<and> process_request (str ''   Hello World   '') = str ''Hello World''"
proof -
  have acc: "accepted (str ''   Hello World   '')"
    by (simp add: eval_simps)
  have out: "process_request (str ''   Hello World   '') = str ''Hello World''"
    by (simp add: eval_simps)
  from C6_process_request_idempotent [OF acc] acc out show ?thesis
    by simp
qed

text \<open>
  C7. The output of an accepted request has at most \<open>MAX_INPUT_LENGTH\<close> = 25
  characters, also after trimming, and fully matches the allow-list pattern.
\<close>

theorem C7_accepted_output_invariants:
  assumes "accepted s"
  shows "length (strip (process_request s)) \<le> 25
         \<and> length (process_request s) \<le> 25
         \<and> fullmatch VALID_PATTERN (process_request s)"
proof -
  from assms have len: "length s \<le> MAX_INPUT_LENGTH"
    and fm: "fullmatch VALID_PATTERN (strip s)"
    by (simp_all add: accepted_iff)
  have out: "process_request s = strip s"
    using len fm by (simp add: process_request_eq)
  have "length (strip s) \<le> 25"
    using length_strip_le [of s] len by (simp add: MAX_INPUT_LENGTH_def)
  with out fm show ?thesis
    by (simp add: strip_idem)
qed

theorem C7_accepted_output_invariants_witness:
  "accepted (str '' Valid_Input 123 '')
   \<and> process_request (str '' Valid_Input 123 '') = str ''Valid_Input 123''
   \<and> length (process_request (str '' Valid_Input 123 '')) \<le> 25
   \<and> fullmatch VALID_PATTERN (process_request (str '' Valid_Input 123 ''))"
proof -
  have acc: "accepted (str '' Valid_Input 123 '')"
    by (simp add: eval_simps)
  have out: "process_request (str '' Valid_Input 123 '') = str ''Valid_Input 123''"
    by (simp add: eval_simps)
  from C7_accepted_output_invariants [OF acc] acc out show ?thesis
    by simp
qed

text \<open>
  C8. On an input of at most 25 characters \<open>filter_input\<close> returns \<open>strip\<close> of it, and
  \<open>strip\<close> only takes whitespace off the two ends: the input is a run of whitespace,
  then the result, then a run of whitespace, and a non-empty result neither begins nor
  ends with whitespace. The two inner spaces of \<open>a  b\<close> are kept.
\<close>

theorem C8_filter_input_trims_edges_only:
  "filter_input (str ''a  b'') = Inr (str ''a  b'')
   \<and> (length s \<le> 25 \<longrightarrow>
        filter_input s = Inr (strip s)
        \<and> (\<exists>pre suf. s = pre @ strip s @ suf \<and> list_all isspace pre \<and> list_all isspace suf)
        \<and> (strip s \<noteq> [] \<longrightarrow> \<not> isspace (hd (strip s)) \<and> \<not> isspace (last (strip s))))"
proof -
  have concrete: "filter_input (str ''a  b'') = Inr (str ''a  b'')"
    by (simp add: filter_input_def eval_simps)
  have pre: "list_all isspace (takeWhile isspace s)"
    by (auto simp: list_all_iff dest: set_takeWhileD)
  have suf: "list_all isspace (rev (takeWhile isspace (rev (dropWhile isspace s))))"
    by (auto simp: list_all_iff dest: set_takeWhileD)
  have dec: "\<exists>pre suf. s = pre @ strip s @ suf \<and> list_all isspace pre \<and> list_all isspace suf"
  proof (intro exI conjI)
    show "s = takeWhile isspace s @ strip s
                @ rev (takeWhile isspace (rev (dropWhile isspace s)))"
      by (rule strip_decompose)
    show "list_all isspace (takeWhile isspace s)"
      by (rule pre)
    show "list_all isspace (rev (takeWhile isspace (rev (dropWhile isspace s))))"
      by (rule suf)
  qed
  have edges: "strip s \<noteq> [] \<longrightarrow> \<not> isspace (hd (strip s)) \<and> \<not> isspace (last (strip s))"
    using strip_no_leading [of s] strip_no_trailing [of s] by blast
  have res: "length s \<le> 25 \<longrightarrow> filter_input s = Inr (strip s)"
    by (simp add: filter_input_def MAX_INPUT_LENGTH_def)
  show ?thesis
  proof (rule conjI [OF concrete], rule impI, rule conjI)
    assume "length s \<le> 25"
    with res show "filter_input s = Inr (strip s)"
      by (rule mp)
  next
    from dec edges
    show "(\<exists>pre suf. s = pre @ strip s @ suf \<and> list_all isspace pre \<and> list_all isspace suf)
          \<and> (strip s \<noteq> [] \<longrightarrow> \<not> isspace (hd (strip s)) \<and> \<not> isspace (last (strip s)))"
      by (rule conjI)
  qed
qed

theorem C8_filter_input_trims_edges_only_witness:
  "length (str '' a  b  '') \<le> 25
   \<and> filter_input (str '' a  b  '') = Inr (str ''a  b'')
   \<and> str '' a  b  '' = str '' '' @ strip (str '' a  b  '') @ str ''  ''"
proof -
  have len: "length (str '' a  b  '') \<le> 25"
    by (simp add: str_def)
  have st: "strip (str '' a  b  '') = str ''a  b''"
    by (simp add: eval_simps)
  have "filter_input (str '' a  b  '') = Inr (strip (str '' a  b  ''))"
    by (rule C8_filter_input_trims_edges_only
        [of "str '' a  b  ''", THEN conjunct2, THEN mp, OF len, THEN conjunct1])
  then have res: "filter_input (str '' a  b  '') = Inr (str ''a  b'')"
    by (simp only: st)
  have dec: "str '' a  b  '' = str '' '' @ strip (str '' a  b  '') @ str ''  ''"
    unfolding st by (simp add: str_def)
  from len res dec show ?thesis
    by (intro conjI)
qed

text \<open>
  C9, as amended. The empty input passes the filter unchanged and is then refused by the
  validator, since the pattern asks for at least one character: \<open>process_request\<close>
  returns the empty string through its \<open>except\<close> clause, after logging the error.
\<close>

theorem C9_empty_input_is_rejected:
  "filter_input [] = Inr []
   \<and> validate_input [] = Inl Invalid_Characters
   \<and> \<not> accepted []
   \<and> process_request_log [] [] =
       ([], [(INFO, Filter_Ok []), (ERROR, Request_Error Invalid_Characters)])
   \<and> process_request [] = []"
  by (simp add: process_request_log_def try_body_def filter_input_def validate_input_def
      eval_simps)

text \<open>
  C9 as the specification words it has the empty input accepted. It is not: the request
  leaves \<open>process_request\<close> through the \<open>except\<close> clause.
\<close>

theorem C9_empty_input_accepted_counterexample:
  "\<not> (accepted [] \<and> process_request [] = [])"
  by (simp add: eval_simps)

text \<open>
  C10. \<open>validate_input\<close> raises on the empty string. Hence an input whose trimmed form
  is empty, as that of every input made of whitespace only, is rejected: with at most 25
  characters it passes the filter and the validator raises, and \<open>process_request\<close> logs
  the error and returns the empty string.
\<close>

theorem C10_empty_trimmed_form_is_rejected:
  "validate_input [] = Inl Invalid_Characters
   \<and> (list_all isspace s \<longrightarrow> strip s = [])
   \<and> (strip s = [] \<longrightarrow> \<not> accepted s \<and> process_request s = [])
   \<and> (strip s = [] \<and> length s \<le> 25 \<longrightarrow>
        process_request_log s [] =
          ([], [(INFO, Filter_Ok []), (ERROR, Request_Error Invalid_Characters)]))"
proof -
  have nomatch: "\<not> fullmatch VALID_PATTERN []"
    by (simp add: fullmatch_VALID_PATTERN)
  then have v: "validate_input [] = Inl Invalid_Characters"
    by (simp add: validate_input_def)
  have "strip s = [] \<Longrightarrow> length s \<le> 25 \<Longrightarrow>
        process_request_log s [] =
          ([], [(INFO, Filter_Ok []), (ERROR, Request_Error Invalid_Characters)])"
    using v by (simp add: process_request_log_def try_body_def filter_input_def
        MAX_INPUT_LENGTH_def)
  moreover have "strip s = [] \<Longrightarrow> \<not> accepted s \<and> process_request s = []"
    using nomatch by (simp add: accepted_iff process_request_eq)
  moreover have "list_all isspace s \<Longrightarrow> strip s = []"
    by (simp add: strip_eq_Nil_iff)
  ultimately show ?thesis
    using v by blast
qed

theorem C10_empty_trimmed_form_is_rejected_witness:
  "list_all isspace (str ''   '')
   \<and> length (str ''   '') \<le> 25
   \<and> strip (str ''   '') = []
   \<and> \<not> accepted (str ''   '')
   \<and> process_request (str ''   '') = []
   \<and> process_request_log (str ''   '') [] =
       ([], [(INFO, Filter_Ok []), (ERROR, Request_Error Invalid_Characters)])"
proof -
  have sp: "list_all isspace (str ''   '')"
    by (simp add: eval_simps)
  have len: "length (str ''   '') \<le> 25"
    by (simp add: str_def)
  from C10_empty_trimmed_form_is_rejected [of "str ''   ''"] sp len show ?thesis
    by blast
qed

end
